theory Spec2Isabelle
  imports Main "HOL-Library.Word" "HOL-Library.Sublist"
begin

section \<open>JavaScript values and strings used by \<open>src/main.ts\<close>\<close>

text \<open>
  A JavaScript string is a sequence of UTF-16 code units; it is modelled as a
  \<^typ>\<open>string\<close>, a list of \<^typ>\<open>char\<close>, each \<^typ>\<open>char\<close> standing for one code
  unit below 256. The line feed is \<^term>\<open>CHR 0x0A\<close>, the double quote
  \<^term>\<open>CHR 0x22\<close>.
\<close>

text \<open>
  The values that a note's frontmatter delivers for the keys the plugin reads:
  \<open>undefined\<close> (key absent), \<open>null\<close>, a boolean or a string.
\<close>

datatype jsval = JUndefined | JNull | JBool bool | JStr string

text \<open>ToBoolean, as every \<open>c ? a : b\<close>, \<open>!c\<close> and \<open>a && b\<close> of the source applies it.\<close>

fun truthy :: "jsval \<Rightarrow> bool" where
  "truthy JUndefined = False"
| "truthy JNull = False"
| "truthy (JBool b) = b"
| "truthy (JStr s) = (s \<noteq> [])"

text \<open>ToString, as \<open>v + "/"\<close> and a template literal \<open>${v}\<close> apply it.\<close>

fun js_to_string :: "jsval \<Rightarrow> string" where
  "js_to_string JUndefined = ''undefined''"
| "js_to_string JNull = ''null''"
| "js_to_string (JBool b) = (if b then ''true'' else ''false'')"
| "js_to_string (JStr s) = s"

text \<open>
  \<open>s.indexOf(t)\<close>: the index of the first occurrence of \<open>t\<close> in \<open>s\<close>;
  \<^term>\<open>None\<close> stands for the source's \<open>-1\<close>.
\<close>

fun js_indexOf :: "string \<Rightarrow> string \<Rightarrow> nat option" where
  "js_indexOf [] t = (if t = [] then Some 0 else None)"
| "js_indexOf (c # cs) t =
     (if prefix t (c # cs) then Some 0 else map_option Suc (js_indexOf cs t))"

text \<open>
  \<open>s.match(/lit.*/)\<close> for a literal pattern with no anchor: the match succeeds
  exactly when the literal occurs somewhere in \<open>s\<close>.
\<close>

definition js_match :: "string \<Rightarrow> string \<Rightarrow> bool" where
  "js_match s lit = (js_indexOf s lit \<noteq> None)"

text \<open>\<open>s.lastIndexOf(c)\<close> for a one-character string \<open>c\<close>; \<open>-1\<close> when absent.\<close>

fun js_lastIndexOf :: "string \<Rightarrow> char \<Rightarrow> int" where
  "js_lastIndexOf [] c = - 1"
| "js_lastIndexOf (x # xs) c =
     (let r = js_lastIndexOf xs c
      in if 0 \<le> r then r + 1 else if x = c then 0 else - 1)"

text \<open>\<open>n >>> 0\<close>: ToUint32 of an integral number.\<close>

definition js_toUint32 :: "int \<Rightarrow> int" where
  "js_toUint32 n = uint (word_of_int n :: 32 word)"

text \<open>
  \<open>s.slice(start)\<close> with an integral \<open>start\<close>: a negative start counts from the
  end, and a start beyond the length gives the empty string.
\<close>

definition js_slice :: "string \<Rightarrow> int \<Rightarrow> string" where
  "js_slice s start =
     (if start < 0 then drop (nat (max (int (length s) + start) 0)) s
      else drop (nat start) s)"

text \<open>\<open>s.split("\n")\<close>, for any one-character separator: never the empty array.\<close>

fun js_split :: "char \<Rightarrow> string \<Rightarrow> string list" where
  "js_split sep [] = [[]]"
| "js_split sep (c # cs) =
     (if c = sep then [] # js_split sep cs
      else (case js_split sep cs of
              [] \<Rightarrow> [[c]]
            | l # ls \<Rightarrow> (c # l) # ls))"

text \<open>The inverse of the split, \<open>lines.join("\n")\<close>; it is used in the proofs only.\<close>

fun js_join :: "char \<Rightarrow> string list \<Rightarrow> string" where
  "js_join sep [] = []"
| "js_join sep [l] = l"
| "js_join sep (l # m # ls) = l @ sep # js_join sep (m # ls)"

text \<open>
  \<open>s.trim()\<close> strips white space and line terminators from both ends; below code
  unit 256 these are tab, line feed, vertical tab, form feed, carriage return, space
  and the no-break space.
\<close>

definition js_whitespace :: "char \<Rightarrow> bool" where
  "js_whitespace c =
     (c \<in> set [CHR 0x09, CHR 0x0A, CHR 0x0B, CHR 0x0C, CHR 0x0D, CHR 0x20, CHR 0xA0])"

definition js_trim :: "string \<Rightarrow> string" where
  "js_trim s = rev (dropWhile js_whitespace (rev (dropWhile js_whitespace s)))"

section \<open>The host editor\<close>

text \<open>
  The editor handle of the host (\<open>Editor\<close> of the \<open>obsidian\<close> package) is state the
  plugin mutates through four calls: \<open>getValue\<close>, \<open>setCursor\<close>, \<open>replaceRange\<close>
  and \<open>replaceSelection\<close>. The state is the full text, with lines joined by a line
  feed, and the selection as two offsets into it; a cursor is a selection whose
  anchor and head coincide. An \<open>EditorPosition\<close> \<open>{line, ch}\<close> is a pair.
\<close>

record editor =
  doc :: string
  sel_anchor :: nat
  sel_head :: nat

type_synonym EditorPosition = "nat \<times> nat"

definition getValue :: "editor \<Rightarrow> string" where
  "getValue e = doc e"

fun offset_in_lines :: "string list \<Rightarrow> nat \<Rightarrow> nat \<Rightarrow> nat" where
  "offset_in_lines [] line ch = 0"
| "offset_in_lines (l # ls) 0 ch = min ch (length l)"
| "offset_in_lines (l # ls) (Suc n) ch = Suc (length l) + offset_in_lines ls n ch"

text \<open>The offset of a position; a position past the end is clipped to the end.\<close>

definition posToOffset :: "editor \<Rightarrow> EditorPosition \<Rightarrow> nat" where
  "posToOffset e p =
     min (length (doc e)) (offset_in_lines (js_split (CHR 0x0A) (doc e)) (fst p) (snd p))"

definition setCursor :: "editor \<Rightarrow> EditorPosition \<Rightarrow> editor" where
  "setCursor e p = e\<lparr>sel_anchor := posToOffset e p, sel_head := posToOffset e p\<rparr>"

text \<open>
  \<open>replaceRange(replacement, from, to)\<close> replaces the text between the two
  positions. A selection offset at or before the range stays, one at or after its end
  moves with the text behind the range, one inside the range falls to its start.
\<close>

definition map_offset :: "nat \<Rightarrow> nat \<Rightarrow> nat \<Rightarrow> nat \<Rightarrow> nat" where
  "map_offset f t n p =
     (if p \<le> f then p else if t \<le> p then p - t + f + n else f)"

definition replaceRange :: "editor \<Rightarrow> string \<Rightarrow> EditorPosition \<Rightarrow> EditorPosition \<Rightarrow> editor" where
  "replaceRange e replacement from to =
     (let f = posToOffset e from;
          t = max f (posToOffset e to)
      in \<lparr>doc = take f (doc e) @ replacement @ drop t (doc e),
          sel_anchor = map_offset f t (length replacement) (sel_anchor e),
          sel_head = map_offset f t (length replacement) (sel_head e)\<rparr>)"

text \<open>
  \<open>replaceSelection(s)\<close> replaces the selected text (nothing, for a cursor) and
  leaves the cursor behind the inserted text.
\<close>

definition replaceSelection :: "editor \<Rightarrow> string \<Rightarrow> editor" where
  "replaceSelection e s =
     (let lo = min (length (doc e)) (min (sel_anchor e) (sel_head e));
          hi = min (length (doc e)) (max (sel_anchor e) (sel_head e))
      in \<lparr>doc = take lo (doc e) @ s @ drop hi (doc e),
          sel_anchor = lo + length s,
          sel_head = lo + length s\<rparr>)"

section \<open>\<open>replaceText\<close>\<close>

text \<open>
  The \<open>for\<close> loop of \<open>replaceText\<close> over the lines, from line \<open>i\<close> on: the first
  line in which \<open>indexOf\<close> finds the target gets the cursor and the replacement,
  and the loop breaks.
\<close>

fun replaceText_loop :: "editor \<Rightarrow> string \<Rightarrow> string \<Rightarrow> string list \<Rightarrow> nat \<Rightarrow> editor" where
  "replaceText_loop e target replacement [] i = e"
| "replaceText_loop e target replacement (l # ls) i =
     (case js_indexOf l target of
        Some ch \<Rightarrow>
          replaceRange (setCursor e (i, ch)) replacement (i, ch) (i, ch + length target)
      | None \<Rightarrow> replaceText_loop e target replacement ls (Suc i))"

definition replaceText :: "editor \<Rightarrow> string \<Rightarrow> string \<Rightarrow> editor" where
  "replaceText e target replacement =
     replaceText_loop e (js_trim target) replacement
       (js_split (CHR 0x0A) (getValue e)) 0"

section \<open>Content key and placeholder\<close>

text \<open>
  \<open>newFileName\<close> of \<open>pasteHandler\<close>, from the hex digest and the file's name:
  \<open>digest + "." + name.slice(((name.lastIndexOf(".") - 1) >>> 0) + 2)\<close>.
\<close>

definition newFileName :: "string \<Rightarrow> string \<Rightarrow> string" where
  "newFileName digest name =
     digest @ ''.'' @
     js_slice name (js_toUint32 (js_lastIndexOf name (CHR ''.'') - 1) + 2)"

text \<open>
  The extension in the words of the specification, not of the source: the substring
  after the last dot, empty when the name has no dot.
\<close>

definition substring_after_last_dot :: "string \<Rightarrow> string" where
  "substring_after_last_dot name =
     (if CHR ''.'' \<in> set name then rev (takeWhile (\<lambda>c. c \<noteq> CHR ''.'') (rev name)) else [])"

text \<open>\<open>pastePlaceText\<close>: the template literal \<open>![uploading...](${newFileName})\n\<close>.\<close>

definition pastePlaceText :: "string \<Rightarrow> string" where
  "pastePlaceText name = ''![uploading...]('' @ name @ '')'' @ [CHR 0x0A]"

section \<open>Settings, frontmatter, files and events\<close>

record SpacesUploaderSettings =
  accessKey :: string
  secretKey :: string
  region :: string
  bucket :: string
  folder :: string
  imageUrlPath :: string
  uploadOnDrag :: bool
  localUpload :: bool
  localUploadFolder :: string
  endpoint :: string
  forcePathStyle :: bool
  uploadVideo :: bool
  uploadAudio :: bool
  uploadPdf :: bool
  public :: bool

definition DEFAULT_SETTINGS :: SpacesUploaderSettings where
  "DEFAULT_SETTINGS =
     \<lparr>accessKey = [], secretKey = [], region = [], bucket = [], folder = [],
      imageUrlPath = [], uploadOnDrag = True, localUpload = False, localUploadFolder = [],
      endpoint = [], forcePathStyle = False, uploadVideo = False, uploadAudio = False,
      uploadPdf = False, public = True\<rparr>"

text \<open>
  The frontmatter of the active note, \<open>getFileCache(noteFile)?.frontmatter\<close>: an
  object from keys to values, or \<open>undefined\<close> (\<^term>\<open>None\<close>) when the note has none.
\<close>

type_synonym frontmatter = "(string \<rightharpoonup> jsval) option"

text \<open>\<open>fm && fm.k\<close>: \<open>undefined\<close> without frontmatter or without the key.\<close>

definition fm_and :: "frontmatter \<Rightarrow> string \<Rightarrow> jsval" where
  "fm_and fm k =
     (case fm of
        None \<Rightarrow> JUndefined
      | Some m \<Rightarrow> (case m k of None \<Rightarrow> JUndefined | Some v \<Rightarrow> v))"

definition fmUploadOnDrag :: "frontmatter \<Rightarrow> jsval" where
  "fmUploadOnDrag fm = fm_and fm ''uploadOnDrag''"

definition fmLocalUpload :: "frontmatter \<Rightarrow> jsval" where
  "fmLocalUpload fm = fm_and fm ''localUpload''"

text \<open>\<open>fm ? fm.localUploadFolder : null\<close>.\<close>

definition fmUploadFolder :: "frontmatter \<Rightarrow> jsval" where
  "fmUploadFolder fm =
     (case fm of
        None \<Rightarrow> JNull
      | Some m \<Rightarrow> (case m ''localUploadFolder'' of None \<Rightarrow> JUndefined | Some v \<Rightarrow> v))"

definition fmUploadVideo :: "frontmatter \<Rightarrow> jsval" where
  "fmUploadVideo fm = fm_and fm ''uploadVideo''"

definition fmUploadAudio :: "frontmatter \<Rightarrow> jsval" where
  "fmUploadAudio fm = fm_and fm ''uploadAudio''"

definition fmUploadPdf :: "frontmatter \<Rightarrow> jsval" where
  "fmUploadPdf fm = fm_and fm ''uploadPdf''"

text \<open>
  The constants \<open>localUpload\<close>, \<open>uploadVideo\<close>, \<open>uploadAudio\<close>, \<open>uploadPdf\<close>,
  \<open>folder\<close> and \<open>localUploadFolder\<close> local to \<open>pasteHandler\<close>, each
  \<open>fmX ? fmX : this.settings.X\<close>. They carry a prime here, the plain names being the
  fields of the settings.
\<close>

definition localUpload' :: "frontmatter \<Rightarrow> SpacesUploaderSettings \<Rightarrow> jsval" where
  "localUpload' fm s =
     (if truthy (fmLocalUpload fm) then fmLocalUpload fm else JBool (localUpload s))"

definition uploadVideo' :: "frontmatter \<Rightarrow> SpacesUploaderSettings \<Rightarrow> jsval" where
  "uploadVideo' fm s =
     (if truthy (fmUploadVideo fm) then fmUploadVideo fm else JBool (uploadVideo s))"

definition uploadAudio' :: "frontmatter \<Rightarrow> SpacesUploaderSettings \<Rightarrow> jsval" where
  "uploadAudio' fm s =
     (if truthy (fmUploadAudio fm) then fmUploadAudio fm else JBool (uploadAudio s))"

definition uploadPdf' :: "frontmatter \<Rightarrow> SpacesUploaderSettings \<Rightarrow> jsval" where
  "uploadPdf' fm s =
     (if truthy (fmUploadPdf fm) then fmUploadPdf fm else JBool (uploadPdf s))"

definition folder' :: "frontmatter \<Rightarrow> SpacesUploaderSettings \<Rightarrow> jsval" where
  "folder' fm s =
     (if truthy (fmUploadFolder fm) then fmUploadFolder fm else JStr (folder s))"

definition localUploadFolder' :: "frontmatter \<Rightarrow> SpacesUploaderSettings \<Rightarrow> jsval" where
  "localUploadFolder' fm s =
     (if truthy (fmUploadFolder fm) then fmUploadFolder fm
      else JStr (localUploadFolder s))"

text \<open>\<open>key\<close> and \<open>localUploadPath\<close>: \<open>f ? f + "/" + newFileName : newFileName\<close>.\<close>

definition key :: "frontmatter \<Rightarrow> SpacesUploaderSettings \<Rightarrow> string \<Rightarrow> string" where
  "key fm s name =
     (if truthy (folder' fm s) then js_to_string (folder' fm s) @ ''/'' @ name else name)"

definition localUploadPath :: "frontmatter \<Rightarrow> SpacesUploaderSettings \<Rightarrow> string \<Rightarrow> string" where
  "localUploadPath fm s name =
     (if truthy (localUploadFolder' fm s)
      then js_to_string (localUploadFolder' fm s) @ ''/'' @ name
      else name)"


text \<open>An error value with its \<open>message\<close>.\<close>

datatype error = Error string

text \<open>
  A DOM \<open>File\<close>: its name, its declared MIME type, and what \<open>arrayBuffer()\<close>
  settles to, the bytes or a rejection.
\<close>

record File =
  f_name :: string
  f_type :: string
  f_arrayBuffer :: "error + 8 word list"

text \<open>
  A paste or drop event: \<open>ev.type\<close>, \<open>ev.defaultPrevented\<close>, and the file list of
  its \<open>clipboardData\<close> or \<open>dataTransfer\<close> (\<^term>\<open>None\<close> when that object is null).
\<close>

record event =
  ev_type :: string
  defaultPrevented :: bool
  files :: "File list option"

text \<open>\<open>transfer?.files[0]\<close>.\<close>

definition files0 :: "event \<Rightarrow> File option" where
  "files0 ev =
     (case files ev of
        None \<Rightarrow> None
      | Some [] \<Rightarrow> None
      | Some (f # fs) \<Rightarrow> Some f)"

text \<open>The \<open>switch (ev.type)\<close>, past the early return of the drop case.\<close>

definition event_file :: "event \<Rightarrow> File option" where
  "event_file ev =
     (if ev_type ev = ''paste'' then files0 ev
      else if ev_type ev = ''drop'' then files0 ev
      else None)"

text \<open>\<open>file?.type.match(re)\<close> as a condition.\<close>

definition type_match :: "File option \<Rightarrow> string \<Rightarrow> bool" where
  "type_match file lit =
     (case file of None \<Rightarrow> False | Some f \<Rightarrow> js_match (f_type f) lit)"

text \<open>
  \<open>thisType\<close>: the \<open>if\<close>/\<open>else if\<close> chain over \<open>videoType\<close>, \<open>audioType\<close>,
  \<open>pdfType\<close> and \<open>imageType\<close>; the empty string when no branch is taken.
\<close>

definition thisType :: "File option \<Rightarrow> jsval \<Rightarrow> jsval \<Rightarrow> jsval \<Rightarrow> string" where
  "thisType file uv ua up =
     (if type_match file ''video'' \<and> truthy uv then ''video''
      else if type_match file ''audio'' \<and> truthy ua then ''audio''
      else if type_match file ''application/pdf'' \<and> truthy up then ''pdf''
      else if type_match file ''image'' then ''image''
      else [])"

text \<open>
  The classification in the words of the specification: the kinds in the order video,
  audio, pdf, image, each with its pattern and its enable flag (none for image), and
  the first kind of that order that matches and is enabled.
\<close>

definition kind_pattern :: "string \<Rightarrow> string" where
  "kind_pattern k = (if k = ''pdf'' then ''application/pdf'' else k)"

definition kind_enabled :: "jsval \<Rightarrow> jsval \<Rightarrow> jsval \<Rightarrow> string \<Rightarrow> bool" where
  "kind_enabled uv ua up k =
     (if k = ''video'' then truthy uv
      else if k = ''audio'' then truthy ua
      else if k = ''pdf'' then truthy up
      else True)"

definition first_enabled_kind :: "File \<Rightarrow> jsval \<Rightarrow> jsval \<Rightarrow> jsval \<Rightarrow> string option" where
  "first_enabled_kind f uv ua up =
     find (\<lambda>k. js_match (f_type f) (kind_pattern k) \<and> kind_enabled uv ua up k)
       [''video'', ''audio'', ''pdf'', ''image'']"

section \<open>\<open>wrapFileDependingOnType\<close>\<close>

definition wrapFileDependingOnType :: "string \<Rightarrow> string \<Rightarrow> string \<Rightarrow> error + string" where
  "wrapFileDependingOnType location ftype localBase =
     (let srcPrefix = (if localBase \<noteq> [] then ''file://'' @ localBase @ ''/'' else [])
      in if ftype = ''image'' then Inr (''![image]('' @ location @ '')'')
         else if ftype = ''video'' then
           Inr (''<video src='' @ [CHR 0x22] @ srcPrefix @ location @ [CHR 0x22]
                @ '' controls />'')
         else if ftype = ''audio'' then
           Inr (''<audio src='' @ [CHR 0x22] @ srcPrefix @ location @ [CHR 0x22]
                @ '' controls />'')
         else if ftype = ''pdf'' then
           (if localBase \<noteq> [] then Inl (Error ''PDFs cannot be embedded in local mode'')
            else Inr (''<iframe frameborder=0 border=0 width=100% height=800''
                      @ [CHR 0x0A, CHR 0x09] @ ''src='' @ [CHR 0x22]
                      @ ''https://docs.google.com/viewer?url='' @ location @ ''?raw=true''
                      @ [CHR 0x22] @ ''>'' @ [CHR 0x0A] @ ''</iframe>''))
         else Inl (Error ''Unknown file type''))"

section \<open>\<open>pasteHandler\<close>\<close>

text \<open>The argument of \<open>new PutObjectCommand\<close>.\<close>

record PutObjectCommand =
  Bucket :: string
  Key :: string
  Body :: "8 word list"
  ContentType :: "string option"
  ACL :: string

text \<open>
  The argument of \<open>new S3Client\<close>; \<open>cfg_accessKeyId\<close> and \<open>cfg_secretAccessKey\<close>
  are the two fields of its \<open>credentials\<close>.
\<close>

record S3ClientConfig =
  cfg_region :: string
  cfg_accessKeyId :: string
  cfg_secretAccessKey :: string
  cfg_endpoint :: string
  cfg_forcePathStyle :: bool

text \<open>
  What \<open>pasteHandler\<close> gets from outside the plugin while it runs: the MD5 hex digest
  of \<open>crypto\<close>; whether the constructor \<open>new S3Client\<close> of the SDK returns
  (\<^term>\<open>None\<close>) or throws (\<^term>\<open>Some err\<close>) on a configuration;
  what \<open>client.send\<close>, \<open>adapter.mkdir\<close> and \<open>adapter.writeBinary\<close>
  settle to (\<^term>\<open>None\<close>: fulfilled, \<^term>\<open>Some err\<close>: rejected with \<open>err\<close>);
  \<open>adapter.getBasePath()\<close> when the adapter is a \<open>FileSystemAdapter\<close>
  (\<^term>\<open>None\<close> when it is not); and what the user does to the editor while the
  handler is suspended, first in \<open>await file.arrayBuffer()\<close>, then in the upload.
\<close>

record env =
  md5_hex :: "8 word list \<Rightarrow> string"
  new_S3Client :: "S3ClientConfig \<Rightarrow> error option"
  send :: "PutObjectCommand \<Rightarrow> error option"
  mkdir :: "string \<Rightarrow> error option"
  writeBinary :: "string \<Rightarrow> 8 word list \<Rightarrow> error option"
  getBasePath :: "string option"
  edit_while_reading :: "editor \<Rightarrow> editor"
  edit_while_uploading :: "editor \<Rightarrow> editor"

text \<open>
  What the handler does, in the order it does it. \<open>ArrayBuffer\<close>, \<open>Send\<close>,
  \<open>Mkdir\<close> and \<open>WriteBinary\<close> are the asynchronous calls: at each of them the
  handler is suspended and control is back in the host's event loop. The others,
  the construction of the client among them, are synchronous.
\<close>

datatype action =
    PreventDefault
  | ArrayBuffer
  | ReplaceSelection string
  | NewS3Client S3ClientConfig
  | Send PutObjectCommand
  | Mkdir string
  | WriteBinary string "8 word list"
  | ReplaceText string string
  | ConsoleError string
  | ConsoleLog string
  | Notice string

text \<open>
  The editor when the handler and its callbacks are done; the editor as it was when
  \<open>editor.replaceSelection(pastePlaceText)\<close> had just returned, if the handler
  came that far; what the handler and its callbacks did; and the error the promise of
  \<open>pasteHandler\<close> is rejected with, if it is.
\<close>

record outcome =
  final :: editor
  inserted :: "editor option"
  trace :: "action list"
  rejected :: "error option"

text \<open>The \<open>.catch\<close> callback of the remote branch.\<close>

definition s3_catch :: "SpacesUploaderSettings \<Rightarrow> error \<Rightarrow> action list" where
  "s3_catch s err =
     (case err of Error message \<Rightarrow>
        [ConsoleError message,
         Notice (''Error uploading image to S3 bucket '' @ bucket s @ '': '' @ message)])"

text \<open>
  The \<open>.then\<close> callback of the remote branch, with the \<open>.catch\<close> callback behind it
  when it throws.
\<close>

definition s3_then ::
  "SpacesUploaderSettings \<Rightarrow> string \<Rightarrow> string \<Rightarrow> string \<Rightarrow> editor \<Rightarrow> editor \<times> action list" where
  "s3_then s k ty ppt e =
     (let url = imageUrlPath s @ k
      in case wrapFileDependingOnType url ty [] of
           Inl err \<Rightarrow> (replaceText e ppt [], ReplaceText ppt [] # s3_catch s err)
         | Inr imgMarkdownText \<Rightarrow>
             (replaceText e ppt imgMarkdownText,
              [ReplaceText ppt imgMarkdownText,
               Notice (''Image uploaded to S3 bucket: '' @ bucket s)]))"

text \<open>The \<open>.catch\<close> callback of the local branch.\<close>

definition local_catch :: "string \<Rightarrow> error \<Rightarrow> action list" where
  "local_catch dir err =
     (case err of Error message \<Rightarrow>
        [ConsoleLog message,
         Notice (''Error uploading image to '' @ dir @ '' folder: '' @ message)])"

text \<open>
  The \<open>.then\<close> callback of the local branch, with the \<open>.catch\<close> callback behind it
  when it throws.
\<close>

definition local_then ::
  "env \<Rightarrow> string \<Rightarrow> string \<Rightarrow> string \<Rightarrow> string \<Rightarrow> editor \<Rightarrow> editor \<times> action list" where
  "local_then en dir path ty ppt e =
     (let basePath = (case getBasePath en of None \<Rightarrow> [] | Some b \<Rightarrow> b)
      in case wrapFileDependingOnType path ty basePath of
           Inl err \<Rightarrow> (replaceText e ppt [], ReplaceText ppt [] # local_catch dir err)
         | Inr imgMarkdownText \<Rightarrow>
             (replaceText e ppt imgMarkdownText,
              [ReplaceText ppt imgMarkdownText,
               Notice (''Image uploaded to '' @ dir @ '' folder'')]))"

text \<open>
  The branch \<open>if (!localUpload)\<close>, entered with the placeholder in the editor. The
  client is constructed first, in no \<open>try\<close> and before any \<open>await\<close> of the branch:
  when the constructor throws, the promise of the handler is rejected there, with the
  editor as the insertion left it.
\<close>

definition remote_upload ::
  "env \<Rightarrow> SpacesUploaderSettings \<Rightarrow> frontmatter \<Rightarrow> string \<Rightarrow> File \<Rightarrow> 8 word list \<Rightarrow>
   string \<Rightarrow> editor \<Rightarrow> editor \<times> action list \<times> error option" where
  "remote_upload en s fm ty f buf name e =
     (let ppt = pastePlaceText name;
          k = key fm s name;
          config = \<lparr>cfg_region = region s, cfg_accessKeyId = accessKey s,
                    cfg_secretAccessKey = secretKey s, cfg_endpoint = endpoint s,
                    cfg_forcePathStyle = forcePathStyle s\<rparr>
      in case new_S3Client en config of
           Some err \<Rightarrow> (e, [NewS3Client config], Some err)
         | None \<Rightarrow>
             (let command = \<lparr>Bucket = bucket s, Key = k, Body = buf,
                             ContentType = (if f_type f \<noteq> [] then Some (f_type f) else None),
                             ACL = (if public s then ''public-read'' else ''private'')\<rparr>;
                  e' = edit_while_uploading en e
              in case send en command of
                   None \<Rightarrow>
                     (case s3_then s k ty ppt e' of
                        (e'', acts) \<Rightarrow>
                          (e'', [NewS3Client config, ArrayBuffer, Send command] @ acts, None))
                 | Some err \<Rightarrow>
                     (e', [NewS3Client config, ArrayBuffer, Send command] @ s3_catch s err,
                      None)))"

text \<open>The \<open>else\<close> branch, the local upload.\<close>

definition local_upload ::
  "env \<Rightarrow> SpacesUploaderSettings \<Rightarrow> frontmatter \<Rightarrow> string \<Rightarrow> 8 word list \<Rightarrow>
   string \<Rightarrow> editor \<Rightarrow> editor \<times> action list \<times> error option" where
  "local_upload en s fm ty buf name e =
     (let ppt = pastePlaceText name;
          dir = js_to_string (localUploadFolder' fm s);
          path = localUploadPath fm s name;
          e' = edit_while_uploading en e
      in case mkdir en dir of
           Some err \<Rightarrow> (e', [Mkdir dir], Some err)
         | None \<Rightarrow>
             (case writeBinary en path buf of
                None \<Rightarrow>
                  (case local_then en dir path ty ppt e' of
                     (e'', acts) \<Rightarrow> (e'', [Mkdir dir, WriteBinary path buf] @ acts, None))
              | Some err \<Rightarrow>
                  (e', [Mkdir dir, WriteBinary path buf] @ local_catch dir err, None)))"

text \<open>The block \<open>if (thisType && file) { ... }\<close>, for a non-empty \<open>thisType\<close>.\<close>

definition claimed ::
  "env \<Rightarrow> SpacesUploaderSettings \<Rightarrow> frontmatter \<Rightarrow> string \<Rightarrow> File \<Rightarrow> editor \<Rightarrow> outcome" where
  "claimed en s fm ty f e =
     (case f_arrayBuffer f of
        Inl err \<Rightarrow>
          \<lparr>final = edit_while_reading en e, inserted = None,
           trace = [PreventDefault, ArrayBuffer], rejected = Some err\<rparr>
      | Inr buf \<Rightarrow>
          (let digest = md5_hex en buf;
               name = newFileName digest (f_name f);
               e1 = replaceSelection (edit_while_reading en e) (pastePlaceText name);
               start = [PreventDefault, ArrayBuffer, ReplaceSelection (pastePlaceText name)]
           in case (if \<not> truthy (localUpload' fm s)
                    then remote_upload en s fm ty f buf name e1
                    else local_upload en s fm ty buf name e1) of
                (e2, acts, rej) \<Rightarrow>
                  \<lparr>final = e2, inserted = Some e1, trace = start @ acts, rejected = rej\<rparr>))"

text \<open>
  \<open>pasteHandler(ev, editor)\<close>. \<open>noteFile\<close> is the name of the active file, or
  \<^term>\<open>None\<close> when there is none.
\<close>

definition declined :: "editor \<Rightarrow> outcome" where
  "declined e = \<lparr>final = e, inserted = None, trace = [], rejected = None\<rparr>"

definition pasteHandler ::
  "env \<Rightarrow> SpacesUploaderSettings \<Rightarrow> string option \<Rightarrow> frontmatter \<Rightarrow> event \<Rightarrow> editor \<Rightarrow> outcome" where
  "pasteHandler en s noteFile fm ev e =
     (if defaultPrevented ev then declined e
      else if noteFile = None \<or> noteFile = Some [] then declined e
      else if ev_type ev = ''drop'' \<and> \<not> uploadOnDrag s \<and> \<not> truthy (fmUploadOnDrag fm)
      then declined e
      else
        (let file = event_file ev;
             ty = thisType file (uploadVideo' fm s) (uploadAudio' fm s) (uploadPdf' fm s)
         in case file of
              None \<Rightarrow> declined e
            | Some f \<Rightarrow> if ty \<noteq> [] then claimed en s fm ty f e else declined e))"

text \<open>
  The asynchronous calls among the actions, and what a trace does before the first of
  them, that is, before the handler gives control back for the first time.
\<close>

definition is_async :: "action \<Rightarrow> bool" where
  "is_async a =
     (case a of
        ArrayBuffer \<Rightarrow> True
      | Send c \<Rightarrow> True
      | Mkdir d \<Rightarrow> True
      | WriteBinary p b \<Rightarrow> True
      | _ \<Rightarrow> False)"

definition sync_prefix :: "action list \<Rightarrow> action list" where
  "sync_prefix acts = takeWhile (\<lambda>a. \<not> is_async a) acts"

section \<open>Inputs of the examples\<close>

text \<open>
  An environment in which the client constructor throws \<open>Region is missing\<close> on an
  empty region, as the SDK's does, and returns otherwise; every asynchronous call
  succeeds, nobody edits the note meanwhile and the adapter is no
  \<open>FileSystemAdapter\<close>. The examples paste empty files, whose MD5 digest is
  \<open>d41d8cd98f00b204e9800998ecf8427e\<close>.
\<close>

definition quiet_env :: env where
  "quiet_env =
     \<lparr>md5_hex = (\<lambda>buf. ''d41d8cd98f00b204e9800998ecf8427e''),
      new_S3Client =
        (\<lambda>config. if cfg_region config = [] then Some (Error ''Region is missing'') else None),
      send = (\<lambda>command. None),
      mkdir = (\<lambda>dir. None),
      writeBinary = (\<lambda>path buf. None),
      getBasePath = None,
      edit_while_reading = (\<lambda>e. e),
      edit_while_uploading = (\<lambda>e. e)\<rparr>"

definition paste_of :: "string \<Rightarrow> string \<Rightarrow> event" where
  "paste_of name mime =
     \<lparr>ev_type = ''paste'', defaultPrevented = False,
      files = Some [\<lparr>f_name = name, f_type = mime, f_arrayBuffer = Inr []\<rparr>]\<rparr>"

definition empty_editor :: editor where
  "empty_editor = \<lparr>doc = [], sel_anchor = 0, sel_head = 0\<rparr>"

definition notes_settings :: SpacesUploaderSettings where
  "notes_settings =
     DEFAULT_SETTINGS\<lparr>region := ''us-east-1'', bucket := ''notes'',
                      imageUrlPath := ''https://cdn.example.com/''\<rparr>"

section \<open>Strings: facts about the JavaScript operations\<close>

lemma js_lastIndexOf_ge: "- 1 \<le> js_lastIndexOf s c"
  by (induction s) (auto simp: Let_def)

lemma js_lastIndexOf_absent: "c \<notin> set s \<Longrightarrow> js_lastIndexOf s c = - 1"
  by (induction s) (auto simp: Let_def)

lemma js_lastIndexOf_last:
  "c \<notin> set ext \<Longrightarrow> js_lastIndexOf (pre @ c # ext) c = int (length pre)"
  by (induction pre) (auto simp: Let_def js_lastIndexOf_absent)

lemma js_toUint32_mod: "js_toUint32 n = n mod 2 ^ 32"
  unfolding js_toUint32_def uint_word_of_int_eq take_bit_eq_mod by simp

lemma js_toUint32_neg2: "js_toUint32 (- 2) = 4294967294"
  by (simp add: js_toUint32_mod)

lemma js_toUint32_neg1: "js_toUint32 (- 1) = 4294967295"
  by (simp add: js_toUint32_mod)

lemma js_toUint32_id: "0 \<le> n \<Longrightarrow> n < 2 ^ 32 \<Longrightarrow> js_toUint32 n = n"
  by (simp add: js_toUint32_mod)

lemma newFileName_no_dot:
  assumes "CHR ''.'' \<notin> set name" "length name < 2 ^ 32"
  shows "newFileName d name = d @ ''.''"
  using assms by (simp add: newFileName_def js_lastIndexOf_absent js_toUint32_neg2 js_slice_def)

lemma newFileName_leading_dot:
  assumes "CHR ''.'' \<notin> set ext" "length (''.'' @ ext) < 2 ^ 32"
  shows "newFileName d (''.'' @ ext) = d @ ''.''"
  using assms js_lastIndexOf_last[of "CHR ''.''" ext "[]"]
  by (simp add: newFileName_def js_toUint32_neg1 js_slice_def)

lemma newFileName_ext:
  assumes "CHR ''.'' \<notin> set ext" "pre \<noteq> []" "length (pre @ ''.'' @ ext) < 2 ^ 32"
  shows "newFileName d (pre @ ''.'' @ ext) = d @ ''.'' @ ext"
proof -
  have l: "js_lastIndexOf (pre @ ''.'' @ ext) (CHR ''.'') = int (length pre)"
    using js_lastIndexOf_last[OF assms(1), of pre] by simp
  have p: "0 \<le> int (length pre) - 1" using assms(2) by (cases pre) auto
  have q: "int (length pre) - 1 < 2 ^ 32" using assms(3) by simp
  show ?thesis
proof -
    have n: "nat (int (length pre) - 1 + 2) = Suc (length pre)" by simp
    show ?thesis
      unfolding newFileName_def l js_toUint32_id[OF p q] js_slice_def n by simp
  qed
qed

lemma dot_in_tl_decomp:
  assumes "CHR ''.'' \<in> set (tl name)"
  shows "\<exists>pre ext. name = pre @ ''.'' @ ext \<and> pre \<noteq> [] \<and> CHR ''.'' \<notin> set ext \<and>
           substring_after_last_dot name = ext"
proof -
  from assms obtain x xs where n: "name = x # xs" by (cases name) auto
  with assms have "CHR ''.'' \<in> set xs" by simp
  from split_list_last[OF this] obtain ys zs where
    s: "xs = ys @ CHR ''.'' # zs" "CHR ''.'' \<notin> set zs" by blast
  have "takeWhile (\<lambda>c. c \<noteq> CHR ''.'') (rev zs @ CHR ''.'' # rev ys @ [x]) = rev zs"
    using s(2) by (simp add: takeWhile_append)
  then have "substring_after_last_dot name = zs"
    unfolding substring_after_last_dot_def n s(1) by simp
  moreover have "name = (x # ys) @ ''.'' @ zs" unfolding n s(1) by simp
  ultimately show ?thesis using s(2) by blast
qed

lemma no_dot_in_tl_cases:
  assumes "CHR ''.'' \<notin> set (tl name)"
  shows "CHR ''.'' \<notin> set name \<or> (\<exists>ext. name = ''.'' @ ext \<and> CHR ''.'' \<notin> set ext)"
  using assms by (cases name) auto

lemma newFileName_char:
  assumes "length name < 2 ^ 32"
  shows "newFileName d name =
     d @ ''.'' @ (if CHR ''.'' \<in> set (tl name) then substring_after_last_dot name else [])"
proof (cases "CHR ''.'' \<in> set (tl name)")
  case True
  from dot_in_tl_decomp[OF True] obtain pre ext where
    p: "name = pre @ ''.'' @ ext" "pre \<noteq> []" "CHR ''.'' \<notin> set ext"
       "substring_after_last_dot name = ext" by blast
  from assms have "length (pre @ ''.'' @ ext) < 2 ^ 32" unfolding p(1) .
  from newFileName_ext[OF p(3) p(2) this] show ?thesis using True p(1) p(4) by simp
next
  case False
  from no_dot_in_tl_cases[OF False] show ?thesis
  proof
    assume "CHR ''.'' \<notin> set name"
    from newFileName_no_dot[OF this assms] False show ?thesis by simp
  next
    assume "\<exists>ext. name = ''.'' @ ext \<and> CHR ''.'' \<notin> set ext"
    then obtain ext where e: "name = ''.'' @ ext" "CHR ''.'' \<notin> set ext" by blast
    from assms have "length (''.'' @ ext) < 2 ^ 32" unfolding e(1) .
    from newFileName_leading_dot[OF e(2) this] False e(1) show ?thesis by simp
  qed
qed

lemma append_eq_split:
  assumes "xs @ ys = zs @ ws" "length zs \<le> length xs"
  shows "\<exists>u. xs = zs @ u \<and> ws = u @ ys"
proof -
  from assms(1) consider us where "xs = zs @ us" "us @ ys = ws"
    | us where "xs @ us = zs" "ys = us @ ws"
    unfolding append_eq_append_conv2 by blast
  then show ?thesis
  proof cases
    case 1
    then show ?thesis by auto
  next
    case 2
    from 2(1) have "length zs = length xs + length us" by (metis length_append)
    with assms(2) have "us = []" by simp
    with 2 show ?thesis by auto
  qed
qed

lemma js_split_nonempty: "js_split c s \<noteq> []"
  by (induction s) (auto split: list.splits)

lemma js_join_split: "js_join c (js_split c s) = s"
proof (induction s)
  case Nil
  then show ?case by simp
next
  case (Cons x s)
  show ?case
  proof (cases "x = c")
    case True
    then show ?thesis using Cons js_split_nonempty[of c s]
      by (cases "js_split c s") auto
  next
    case False
    then show ?thesis using Cons js_split_nonempty[of c s]
      by (cases "js_split c s"; cases "tl (js_split c s)") auto
  qed
qed

lemma js_split_no_sep: "l \<in> set (js_split c s) \<Longrightarrow> c \<notin> set l"
proof (induction s arbitrary: l)
  case Nil
  then show ?case by simp
next
  case (Cons x s)
  then show ?case
    by (cases "js_split c s") (auto split: if_splits)
qed

lemma js_join_Cons: "ls \<noteq> [] \<Longrightarrow> js_join c (l # ls) = l @ c # js_join c ls"
  by (cases ls) auto

lemma js_join_decomp:
  "js_join c (ls1 @ l # ls2) =
     concat (map (\<lambda>x. x @ [c]) ls1) @ l @ (if ls2 = [] then [] else c # js_join c ls2)"
  by (induction ls1) (auto simp: js_join_Cons)

lemma offset_in_lines_decomp:
  "offset_in_lines (ls1 @ l # ls2) (length ls1) ch =
     length (concat (map (\<lambda>x. x @ [c]) ls1)) + min ch (length l)"
  by (induction ls1) auto

lemma js_indexOf_None: "js_indexOf s t = None \<longleftrightarrow> \<not> sublist t s"
  by (induction s) (auto simp: sublist_Cons_right)

lemma js_indexOf_Some:
  "js_indexOf s t = Some n \<Longrightarrow> \<exists>b. s = take n s @ t @ b \<and> n \<le> length s"
proof (induction s arbitrary: n)
  case Nil
  then show ?case by (auto split: if_splits)
next
  case (Cons x s)
  show ?case
  proof (cases "prefix t (x # s)")
    case True
    then show ?thesis using Cons.prems by (auto simp: prefix_def)
  next
    case False
    then obtain m where m: "js_indexOf s t = Some m" "n = Suc m"
      using Cons.prems by auto
    from Cons.IH[OF m(1)] show ?thesis using m(2) by auto
  qed
qed

lemma js_indexOf_least:
  "js_indexOf s t = Some n \<Longrightarrow> s = a @ t @ b \<Longrightarrow> n \<le> length a"
proof (induction s arbitrary: n a)
  case Nil
  then show ?case by (auto split: if_splits)
next
  case (Cons x s)
  show ?case
  proof (cases "prefix t (x # s)")
    case True
    then have "js_indexOf (x # s) t = Some 0" by simp
    then show ?thesis using Cons.prems(1) by simp
  next
    case False
    then obtain m where m: "js_indexOf s t = Some m" "n = Suc m"
      using Cons.prems(1) by auto
    have "a \<noteq> []"
    proof
      assume "a = []"
      then have "prefix t (x # s)" using Cons.prems(2) by (simp add: prefix_def)
      then show False using False by simp
    qed
    then obtain y a' where a': "a = y # a'" by (cases a) auto
    then have "s = a' @ t @ b" using Cons.prems(2) by simp
    from Cons.IH[OF m(1) this] show ?thesis using m(2) a' by simp
  qed
qed

lemma replaceText_loop_none:
  "\<forall>x \<in> set ls. js_indexOf x t = None \<Longrightarrow> replaceText_loop e t r ls i = e"
  by (induction ls arbitrary: i) auto

lemma replaceText_loop_found:
  "\<forall>x \<in> set ls1. js_indexOf x t = None \<Longrightarrow> js_indexOf l t = Some ch \<Longrightarrow>
   replaceText_loop e t r (ls1 @ l # ls2) i =
     replaceRange (setCursor e (i + length ls1, ch)) r
       (i + length ls1, ch) (i + length ls1, ch + length t)"
  by (induction ls1 arbitrary: i) auto

text \<open>An occurrence of a text without separator in the joined lines lies inside one line.\<close>

lemma occurrence_in_line:
  assumes "c \<notin> set t"
  shows "\<forall>l \<in> set ls. c \<notin> set l \<Longrightarrow> ls \<noteq> [] \<Longrightarrow> js_join c ls = P @ t @ S \<Longrightarrow>
    \<exists>ls1 l ls2 a b. ls = ls1 @ l # ls2 \<and> l = a @ t @ b \<and>
       P = concat (map (\<lambda>x. x @ [c]) ls1) @ a"
proof (induction ls arbitrary: P)
  case Nil
  then show ?case by simp
next
  case (Cons l ls)
  show ?case
  proof (cases "ls = []")
    case True
    then have "l = P @ t @ S" using Cons.prems by simp
    then have "l # ls = [] @ l # [] \<and> l = P @ t @ S \<and>
        P = concat (map (\<lambda>x. x @ [c]) []) @ P"
      using True by simp
    then show ?thesis by blast
  next
    case False
    then have j: "l @ c # js_join c ls = P @ t @ S"
      using Cons.prems(3) by (simp add: js_join_Cons)
    have cl: "c \<notin> set l" using Cons.prems(1) by simp
    show ?thesis
    proof (cases "length P \<le> length l")
      case True
      from append_eq_split[OF j True] obtain u where
        u: "l = P @ u" "t @ S = u @ c # js_join c ls" by blast
      have "length t \<le> length u"
      proof (rule ccontr)
        assume "\<not> length t \<le> length u"
        then have "length u \<le> length t" by simp
        from append_eq_split[OF u(2) this] obtain v where
          v: "t = u @ v" "c # js_join c ls = v @ S" by blast
        from \<open>\<not> length t \<le> length u\<close> v(1) have "v \<noteq> []" by auto
        with v(2) have "c \<in> set v" by (cases v) auto
        with v(1) assms show False by simp
      qed
      from append_eq_split[OF u(2)[symmetric] this] obtain b where "u = t @ b" by blast
      then have "l # ls = [] @ l # ls \<and> l = P @ t @ b \<and>
          P = concat (map (\<lambda>x. x @ [c]) []) @ P"
        using u(1) by simp
      then show ?thesis by blast
    next
      case False
      then have "length l \<le> length P" by simp
      from append_eq_split[OF j[symmetric] this] obtain P' where
        P': "P = l @ P'" "c # js_join c ls = P' @ t @ S" by blast
      from False P'(1) have "P' \<noteq> []" by auto
      with P'(2) obtain P'' where P'': "P' = c # P''" "js_join c ls = P'' @ t @ S"
        by (cases P') auto
      have "\<forall>l \<in> set ls. c \<notin> set l" using Cons.prems(1) by simp
      from Cons.IH[OF this \<open>ls \<noteq> []\<close> P''(2)]
      obtain ls1 l' ls2 a b where
        "ls = ls1 @ l' # ls2" "l' = a @ t @ b" "P'' = concat (map (\<lambda>x. x @ [c]) ls1) @ a"
        by blast
      then have "l # ls = (l # ls1) @ l' # ls2 \<and> l' = a @ t @ b \<and>
          P = concat (map (\<lambda>x. x @ [c]) (l # ls1)) @ a"
        using P'(1) P''(1) by simp
      then show ?thesis by blast
    qed
  qed
qed

section \<open>\<open>replaceText\<close>: what it finds and what it leaves\<close>

lemma line_sublist: "l \<in> set (js_split c s) \<Longrightarrow> sublist l s"
proof -
  assume "l \<in> set (js_split c s)"
  then obtain ls1 ls2 where "js_split c s = ls1 @ l # ls2" by (meson split_list)
  then have "js_join c (js_split c s) =
      concat (map (\<lambda>x. x @ [c]) ls1) @ l @ (if ls2 = [] then [] else c # js_join c ls2)"
    by (simp add: js_join_decomp)
  then show ?thesis unfolding js_join_split sublist_def by blast
qed

lemma replaceText_absent:
  assumes "\<not> sublist (js_trim target) (doc e)"
  shows "replaceText e target r = e"
proof -
  have "\<forall>x \<in> set (js_split (CHR 0x0A) (doc e)). js_indexOf x (js_trim target) = None"
  proof
    fix x assume "x \<in> set (js_split (CHR 0x0A) (doc e))"
    then have "sublist x (doc e)" by (rule line_sublist)
    with assms have "\<not> sublist (js_trim target) x"
      using sublist_order.order_trans by blast
    then show "js_indexOf x (js_trim target) = None" by (simp add: js_indexOf_None)
  qed
  then show ?thesis
    unfolding replaceText_def getValue_def by (rule replaceText_loop_none)
qed

lemma replaceRange_at:
  assumes "doc e = A @ t @ B"
      and "posToOffset e p = length A"
      and "posToOffset e q = length A + length t"
  shows "replaceRange (setCursor e p) r p q =
           \<lparr>doc = A @ r @ B, sel_anchor = length A, sel_head = length A\<rparr>"
proof -
  have d: "doc (setCursor e p) = doc e" by (simp add: setCursor_def)
  have pp: "posToOffset (setCursor e p) p = length A"
    using assms(2) by (simp add: posToOffset_def d)
  have qq: "posToOffset (setCursor e p) q = length A + length t"
    using assms(3) by (simp add: posToOffset_def d)
  show ?thesis
    unfolding replaceRange_def pp qq Let_def d
    by (simp add: assms(1) setCursor_def assms(2) map_offset_def)
qed

lemma replaceText_found:
  assumes nl: "CHR 0x0A \<notin> set (js_trim target)"
      and occ: "doc e = P @ js_trim target @ S"
      and least: "\<forall>P' S'. doc e = P' @ js_trim target @ S' \<longrightarrow> length P \<le> length P'"
  shows "replaceText e target r =
           \<lparr>doc = P @ r @ S, sel_anchor = length P, sel_head = length P\<rparr>"
proof -
  define c where "c = CHR 0x0A"
  define t where "t = js_trim target"
  define ls where "ls = js_split c (doc e)"
  have j: "js_join c ls = P @ t @ S" unfolding ls_def js_join_split t_def by (rule occ)
  have ne: "ls \<noteq> []" unfolding ls_def by (rule js_split_nonempty)
  have ns: "\<forall>l \<in> set ls. c \<notin> set l" unfolding ls_def using js_split_no_sep by blast
  have ct: "c \<notin> set t" using nl unfolding c_def t_def .
  from occurrence_in_line[OF ct ns ne j] obtain ls1 l ls2 a b where
    o: "ls = ls1 @ l # ls2" "l = a @ t @ b" "P = concat (map (\<lambda>x. x @ [c]) ls1) @ a"
    by blast
  have "sublist t l" using o(2) by (auto simp: sublist_def)
  then have "js_indexOf l t \<noteq> None" by (simp add: js_indexOf_None)
  moreover have "l \<in> set ls" using o(1) by simp
  ultimately have "\<exists>x \<in> set ls. js_indexOf x t \<noteq> None" by blast
  from split_list_first_prop[OF this] obtain k1 m k2 where
    k: "ls = k1 @ m # k2" "js_indexOf m t \<noteq> None" "\<forall>x \<in> set k1. js_indexOf x t = None"
    by auto
  from k(2) obtain ch where ch: "js_indexOf m t = Some ch" by auto
  from js_indexOf_Some[OF ch] obtain b' where
    m: "m = take ch m @ t @ b'" "ch \<le> length m" by blast
  define A where "A = concat (map (\<lambda>x. x @ [c]) k1) @ take ch m"
  define B where "B = b' @ (if k2 = [] then [] else c # js_join c k2)"
  have "js_join c ls = concat (map (\<lambda>x. x @ [c]) k1) @ m @ (if k2 = [] then [] else c # js_join c k2)"
    unfolding k(1) by (rule js_join_decomp)
  then have dAB: "doc e = A @ t @ B"
    unfolding A_def B_def ls_def js_join_split using m(1)
    by (metis append.assoc)
  have lenA: "length A = length (concat (map (\<lambda>x. x @ [c]) k1)) + ch"
    unfolding A_def using m(2) by simp
  have PA: "length P \<le> length A" using least dAB unfolding t_def by blast
  have AP: "length A \<le> length P"
  proof -
    have "\<not> length ls1 < length k1"
    proof
      assume lt: "length ls1 < length k1"
      have "ls ! length ls1 = l" unfolding o(1) by simp
      moreover have "ls ! length ls1 = k1 ! length ls1" unfolding k(1) using lt
        by (simp add: nth_append)
      ultimately have "l \<in> set k1" using lt by (metis nth_mem)
      with k(3) have "js_indexOf l t = None" by simp
      with \<open>js_indexOf l t \<noteq> None\<close> show False by simp
    qed
    then consider "length k1 = length ls1" | "length k1 < length ls1" by linarith
    then show ?thesis
    proof cases
      case 1
      from o(1) k(1) 1 have e1: "ls1 = k1" "l = m" by (auto simp: append_eq_append_conv)
      from js_indexOf_least[OF ch] o(2) e1(2) have "ch \<le> length a" by blast
      then show ?thesis unfolding lenA o(3) e1(1) by simp
    next
      case 2
      then have "length k1 \<le> length ls1" by simp
      from o(1) k(1) have "ls1 @ l # ls2 = k1 @ m # k2" by simp
      from append_eq_split[OF this \<open>length k1 \<le> length ls1\<close>] obtain u where
        u: "ls1 = k1 @ u" "m # k2 = u @ l # ls2" by blast
      from 2 u(1) have "u \<noteq> []" by auto
      with u(2) obtain u' where "u = m # u'" by (cases u) auto
      with u(1) have "ls1 = k1 @ m # u'" by simp
      then show ?thesis unfolding lenA o(3) using m(2) by simp
    qed
  qed
  from PA AP have "length P = length A" by simp
  with occ dAB have PAeq: "P = A" "S = B" unfolding t_def by auto
  have off1: "posToOffset e (length k1, ch) = length A"
  proof -
    have "offset_in_lines ls (length k1) ch = length A"
      unfolding k(1) offset_in_lines_decomp[where c=c] lenA using m(2) by simp
    moreover have "length A \<le> length (doc e)" unfolding dAB by simp
    ultimately show ?thesis unfolding posToOffset_def ls_def c_def by simp
  qed
  have off2: "posToOffset e (length k1, ch + length t) = length A + length t"
  proof -
    have "ch + length t \<le> length m"
    proof -
      have "length m = length (take ch m) + length t + length b'"
        using m(1) by (metis length_append add.assoc)
      then show ?thesis using m(2) by simp
    qed
    then have "offset_in_lines ls (length k1) (ch + length t) = length A + length t"
      unfolding k(1) offset_in_lines_decomp[where c=c] lenA by simp
    moreover have "length A + length t \<le> length (doc e)" unfolding dAB by simp
    ultimately show ?thesis unfolding posToOffset_def ls_def c_def by simp
  qed
  have "replaceText e target r =
      replaceRange (setCursor e (0 + length k1, ch)) r
        (0 + length k1, ch) (0 + length k1, ch + length t)"
    unfolding replaceText_def getValue_def
    using replaceText_loop_found[OF k(3) ch, of e r k2 0] k(1)
    unfolding ls_def t_def c_def by simp
  also have "\<dots> = \<lparr>doc = A @ r @ B, sel_anchor = length A, sel_head = length A\<rparr>"
    using replaceRange_at[OF dAB off1 off2] by simp
  finally show ?thesis unfolding PAeq .
qed

lemma js_trim_pastePlaceText:
  "js_trim (pastePlaceText k) = ''![uploading...]('' @ k @ '')''"
  by (simp add: js_trim_def pastePlaceText_def js_whitespace_def)

section \<open>The content key\<close>

text \<open>
  C3, as the code has it. For a name shorter than \<open>2 ^ 32\<close> code units (as every
  string of a JavaScript engine is), the content key is the digest and a dot, followed
  by the substring after the last dot when a dot stands somewhere behind the first
  character, and by nothing otherwise. So a name with no dot, and a name whose only
  dot is its first character, give the digest with a trailing dot.
\<close>

theorem newFileName_extension:
  "(CHR ''.'' \<in> set (tl name) \<and> length name < 2 ^ 32 \<longrightarrow>
      newFileName d name = d @ ''.'' @ substring_after_last_dot name) \<and>
   (CHR ''.'' \<notin> set (tl name) \<and> length name < 2 ^ 32 \<longrightarrow>
      newFileName d name = d @ ''.'')"
  using newFileName_char[of name d] by simp

text \<open>Both cases at work: \<open>photo.png\<close> keeps its extension, \<open>README\<close> ends in a dot.\<close>

theorem newFileName_extension_witness:
  "newFileName ''d41d8cd98f00b204e9800998ecf8427e'' ''photo.png''
     = ''d41d8cd98f00b204e9800998ecf8427e.png'' \<and>
   newFileName ''d41d8cd98f00b204e9800998ecf8427e'' ''README''
     = ''d41d8cd98f00b204e9800998ecf8427e.''"
  using newFileName_extension[of "''photo.png''" "''d41d8cd98f00b204e9800998ecf8427e''"]
    newFileName_extension[of "''README''" "''d41d8cd98f00b204e9800998ecf8427e''"]
  by (simp add: substring_after_last_dot_def)

text \<open>
  C3 as the specification states it fails twice: the key of \<open>README\<close> is not the
  bare digest, and the key of \<open>.png\<close> is not the digest, a dot and the substring
  after the last dot.
\<close>

theorem newFileName_counterexample:
  "newFileName ''d41d8cd98f00b204e9800998ecf8427e'' ''README''
     \<noteq> ''d41d8cd98f00b204e9800998ecf8427e'' \<and>
   newFileName ''d41d8cd98f00b204e9800998ecf8427e'' ''.png''
     \<noteq> ''d41d8cd98f00b204e9800998ecf8427e'' @ ''.'' @ substring_after_last_dot ''.png''"
  by (simp add: newFileName_def js_toUint32_mod js_slice_def Let_def
      substring_after_last_dot_def)

text \<open>
  C9, as the code has it. Two files with the same bytes get the same content key
  whenever their names (shorter than \<open>2 ^ 32\<close> code units) agree on the substring
  after the last dot and agree on having a dot behind the first character: both have
  one, or neither has. The digest is a function of the bytes, so repeated calls give
  the same key.
\<close>

theorem content_key_same_extension:
  assumes "substring_after_last_dot n1 = substring_after_last_dot n2"
      and "(CHR ''.'' \<in> set (tl n1)) = (CHR ''.'' \<in> set (tl n2))"
      and "length n1 < 2 ^ 32" and "length n2 < 2 ^ 32"
  shows "newFileName (md5_hex en bytes) n1 = newFileName (md5_hex en bytes) n2"
  using assms newFileName_char[of n1] newFileName_char[of n2] by simp

text \<open>Two names with an extension, and two names with none.\<close>

theorem content_key_same_extension_witness:
  "newFileName (md5_hex quiet_env []) ''cat.png''
     = newFileName (md5_hex quiet_env []) ''holiday.2024.png'' \<and>
   newFileName (md5_hex quiet_env []) ''README''
     = newFileName (md5_hex quiet_env []) ''Makefile''"
proof
  show "newFileName (md5_hex quiet_env []) ''cat.png''
     = newFileName (md5_hex quiet_env []) ''holiday.2024.png''"
    by (rule content_key_same_extension) (simp_all add: substring_after_last_dot_def)
  show "newFileName (md5_hex quiet_env []) ''README''
     = newFileName (md5_hex quiet_env []) ''Makefile''"
    by (rule content_key_same_extension) (simp_all add: substring_after_last_dot_def)
qed

text \<open>
  C9 as the specification states it fails: \<open>.png\<close> and \<open>a.png\<close> agree on the
  substring after the last dot, and the same digest gives them different keys.
\<close>

theorem content_key_counterexample:
  "substring_after_last_dot ''.png'' = substring_after_last_dot ''a.png'' \<and>
   newFileName ''d41d8cd98f00b204e9800998ecf8427e'' ''.png''
     \<noteq> newFileName ''d41d8cd98f00b204e9800998ecf8427e'' ''a.png''"
  by (simp add: newFileName_def js_toUint32_mod js_slice_def Let_def
      substring_after_last_dot_def)

section \<open>Reconciliation\<close>

text \<open>
  C7. When the placeholder text \<open>![uploading...](key)\<close> does not occur in the
  document, \<open>replaceText\<close> returns the editor as it was, text and selection, whatever
  the replacement; the function has no error branch.
\<close>

theorem replaceText_placeholder_absent:
  assumes "\<not> sublist (''![uploading...]('' @ k @ '')'') (doc e)"
  shows "replaceText e (pastePlaceText k) r = e"
  using assms by (intro replaceText_absent) (simp add: js_trim_pastePlaceText)

theorem replaceText_placeholder_absent_witness:
  "\<not> sublist (''![uploading...]('' @ ''ab.png'' @ '')'')
       (doc \<lparr>doc = ''# Note'', sel_anchor = 2, sel_head = 2\<rparr>) \<and>
   replaceText \<lparr>doc = ''# Note'', sel_anchor = 2, sel_head = 2\<rparr> (pastePlaceText ''ab.png'') []
     = \<lparr>doc = ''# Note'', sel_anchor = 2, sel_head = 2\<rparr>"
proof -
  have h: "\<not> sublist (''![uploading...]('' @ ''ab.png'' @ '')'')
             (doc \<lparr>doc = ''# Note'', sel_anchor = 2, sel_head = 2\<rparr>)"
    by (simp add: sublist_code)
  from replaceText_placeholder_absent[OF h] h show ?thesis by blast
qed

text \<open>
  C5, as the code has it. When the content key holds no line feed and the placeholder
  text \<open>![uploading...](key)\<close> occurs in the document, \<open>replaceText\<close> replaces its
  leftmost occurrence, which is the first one on the first line that has one, by the
  markup; the text before and behind that span stays as it is, the line feed behind the
  placeholder included; and the cursor is put at the start of the replaced span.
\<close>

theorem replaceText_placeholder_found:
  assumes "CHR 0x0A \<notin> set k"
      and "doc e = P @ ''![uploading...]('' @ k @ '')'' @ S"
      and "\<forall>P' S'. doc e = P' @ ''![uploading...]('' @ k @ '')'' @ S' \<longrightarrow> length P \<le> length P'"
  shows "replaceText e (pastePlaceText k) r =
           \<lparr>doc = P @ r @ S, sel_anchor = length P, sel_head = length P\<rparr>"
proof (rule replaceText_found)
  show "CHR 0x0A \<notin> set (js_trim (pastePlaceText k))"
    using assms(1) by (simp add: js_trim_pastePlaceText)
  show "doc e = P @ js_trim (pastePlaceText k) @ S"
    using assms(2) by (simp add: js_trim_pastePlaceText)
  show "\<forall>P' S'. doc e = P' @ js_trim (pastePlaceText k) @ S' \<longrightarrow> length P \<le> length P'"
    using assms(3) by (simp add: js_trim_pastePlaceText)
qed

theorem replaceText_placeholder_found_witness:
  "replaceText
     \<lparr>doc = ''abc'' @ [CHR 0x0A] @ ''![uploading...](k.png)'' @ [CHR 0x0A] @ ''xyz'',
      sel_anchor = 30, sel_head = 30\<rparr>
     (pastePlaceText ''k.png'') ''![image](u)''
   = \<lparr>doc = ''abc'' @ [CHR 0x0A] @ ''![image](u)'' @ [CHR 0x0A] @ ''xyz'',
      sel_anchor = 4, sel_head = 4\<rparr>"
proof -
  let ?e = "\<lparr>doc = ''abc'' @ [CHR 0x0A] @ ''![uploading...](k.png)'' @ [CHR 0x0A] @ ''xyz'',
             sel_anchor = 30, sel_head = 30\<rparr>"
  have h1: "CHR 0x0A \<notin> set ''k.png''" by simp
  have h2: "doc ?e = (''abc'' @ [CHR 0x0A]) @ ''![uploading...]('' @ ''k.png'' @ '')''
              @ ([CHR 0x0A] @ ''xyz'')"
    by simp
  have i: "js_indexOf (doc ?e) (''![uploading...]('' @ ''k.png'' @ '')'') = Some 4"
    by simp
  have h3: "\<forall>P' S'. doc ?e = P' @ ''![uploading...]('' @ ''k.png'' @ '')'' @ S'
              \<longrightarrow> length (''abc'' @ [CHR 0x0A]) \<le> length P'"
  proof (intro allI impI)
    fix P' S'
    assume "doc ?e = P' @ ''![uploading...]('' @ ''k.png'' @ '')'' @ S'"
    then have "doc ?e = P' @ (''![uploading...]('' @ ''k.png'' @ '')'') @ S'"
      by (simp only: append_assoc)
    from js_indexOf_least[OF i this] show "length (''abc'' @ [CHR 0x0A]) \<le> length P'"
      by simp
  qed
  from replaceText_placeholder_found[OF h1 h2 h3, of "''![image](u)''"]
  show ?thesis by simp
qed

text \<open>
  C5 as the specification states it fails twice. The cursor is not left where it was:
  it stood at the end of the note, at offset 30, and is at offset 4 afterwards. And a
  placeholder that occurs in the document is not replaced when the content key holds a
  line feed, as the extension of a file name may: no single line contains it.
\<close>

theorem replaceText_cursor_counterexample:
  "sel_head
     (replaceText
        \<lparr>doc = ''abc'' @ [CHR 0x0A] @ ''![uploading...](k.png)'' @ [CHR 0x0A] @ ''xyz'',
         sel_anchor = 30, sel_head = 30\<rparr>
        (pastePlaceText ''k.png'') ''![image](u)'') = 4 \<and>
   sublist (''![uploading...]('' @ (''k.p'' @ [CHR 0x0A] @ ''g'') @ '')'')
     (''![uploading...](k.p'' @ [CHR 0x0A] @ ''g)'' @ [CHR 0x0A]) \<and>
   replaceText
     \<lparr>doc = ''![uploading...](k.p'' @ [CHR 0x0A] @ ''g)'' @ [CHR 0x0A],
      sel_anchor = 24, sel_head = 24\<rparr>
     (pastePlaceText (''k.p'' @ [CHR 0x0A] @ ''g'')) ''![image](u)''
   = \<lparr>doc = ''![uploading...](k.p'' @ [CHR 0x0A] @ ''g)'' @ [CHR 0x0A],
      sel_anchor = 24, sel_head = 24\<rparr>"
  by (simp add: replaceText_def getValue_def js_trim_pastePlaceText replaceRange_def
      setCursor_def posToOffset_def map_offset_def sublist_code)

section \<open>Runs of the handler on the example inputs\<close>

lemma newFileName_photo:
  "newFileName ''d41d8cd98f00b204e9800998ecf8427e'' ''photo.png''
     = ''d41d8cd98f00b204e9800998ecf8427e.png''"
  by (simp add: newFileName_def js_toUint32_mod js_slice_def Let_def)

lemma newFileName_paper:
  "newFileName ''d41d8cd98f00b204e9800998ecf8427e'' ''paper.pdf''
     = ''d41d8cd98f00b204e9800998ecf8427e.pdf''"
  by (simp add: newFileName_def js_toUint32_mod js_slice_def Let_def)

lemma claims_photo:
  "pasteHandler en notes_settings (Some ''note.md'') None (paste_of ''photo.png'' ''image/png'') e
   = claimed en notes_settings None ''image''
       \<lparr>f_name = ''photo.png'', f_type = ''image/png'', f_arrayBuffer = Inr []\<rparr> e"
  by (simp add: pasteHandler_def paste_of_def notes_settings_def DEFAULT_SETTINGS_def
      event_file_def files0_def thisType_def type_match_def js_match_def Let_def
      uploadVideo'_def uploadAudio'_def uploadPdf'_def fmUploadVideo_def
      fmUploadAudio_def fmUploadPdf_def fm_and_def)

lemma insert_photo:
  "replaceSelection empty_editor (pastePlaceText ''d41d8cd98f00b204e9800998ecf8427e.png'')
   = \<lparr>doc = ''![uploading...](d41d8cd98f00b204e9800998ecf8427e.png)'' @ [CHR 0x0A],
      sel_anchor = 54, sel_head = 54\<rparr>"
  by (simp add: replaceSelection_def pastePlaceText_def empty_editor_def)

lemma reconcile_first:
  "CHR 0x0A \<notin> set k \<Longrightarrow>
   replaceText \<lparr>doc = ''![uploading...]('' @ k @ '')'' @ S, sel_anchor = a, sel_head = h\<rparr>
     (pastePlaceText k) r
   = \<lparr>doc = r @ S, sel_anchor = 0, sel_head = 0\<rparr>"
proof -
  assume "CHR 0x0A \<notin> set k"
  then have "replaceText \<lparr>doc = ''![uploading...]('' @ k @ '')'' @ S, sel_anchor = a, sel_head = h\<rparr>
     (pastePlaceText k) r
   = \<lparr>doc = [] @ r @ S, sel_anchor = length ([] :: string), sel_head = length ([] :: string)\<rparr>"
    by (intro replaceText_found) (simp_all add: js_trim_pastePlaceText)
  then show ?thesis by simp
qed

lemma run_photo:
  "pasteHandler quiet_env notes_settings (Some ''note.md'') None
     (paste_of ''photo.png'' ''image/png'') empty_editor
   = \<lparr>final =
        \<lparr>doc = ''![image](https://cdn.example.com/d41d8cd98f00b204e9800998ecf8427e.png)''
                @ [CHR 0x0A],
         sel_anchor = 0, sel_head = 0\<rparr>,
      inserted =
        Some \<lparr>doc = ''![uploading...](d41d8cd98f00b204e9800998ecf8427e.png)'' @ [CHR 0x0A],
                sel_anchor = 54, sel_head = 54\<rparr>,
      trace =
        [PreventDefault, ArrayBuffer,
         ReplaceSelection (pastePlaceText ''d41d8cd98f00b204e9800998ecf8427e.png''),
         NewS3Client \<lparr>cfg_region = ''us-east-1'', cfg_accessKeyId = [], cfg_secretAccessKey = [],
                       cfg_endpoint = [], cfg_forcePathStyle = False\<rparr>,
         ArrayBuffer,
         Send \<lparr>Bucket = ''notes'', Key = ''d41d8cd98f00b204e9800998ecf8427e.png'',
                Body = [], ContentType = Some ''image/png'', ACL = ''public-read''\<rparr>,
         ReplaceText (pastePlaceText ''d41d8cd98f00b204e9800998ecf8427e.png'')
           ''![image](https://cdn.example.com/d41d8cd98f00b204e9800998ecf8427e.png)'',
         Notice ''Image uploaded to S3 bucket: notes''],
      rejected = None\<rparr>"
  unfolding claims_photo
  apply (simp add: claimed_def Let_def quiet_env_def newFileName_photo insert_photo
      localUpload'_def fmLocalUpload_def fm_and_def notes_settings_def DEFAULT_SETTINGS_def)
  apply (simp add: remote_upload_def Let_def key_def folder'_def fmUploadFolder_def)
  apply (simp add: s3_then_def wrapFileDependingOnType_def)
  apply (insert reconcile_first[of "''d41d8cd98f00b204e9800998ecf8427e.png''" "[CHR 0x0A]" 54 54
      "''![image](https://cdn.example.com/d41d8cd98f00b204e9800998ecf8427e.png)''"])
  apply simp
  done

lemma claims_photo_local:
  "pasteHandler en notes_settings (Some ''note.md'') (Some [''localUpload'' \<mapsto> JBool True])
     (paste_of ''photo.png'' ''image/png'') e
   = claimed en notes_settings (Some [''localUpload'' \<mapsto> JBool True]) ''image''
       \<lparr>f_name = ''photo.png'', f_type = ''image/png'', f_arrayBuffer = Inr []\<rparr> e"
  by (simp add: pasteHandler_def paste_of_def notes_settings_def DEFAULT_SETTINGS_def
      event_file_def files0_def thisType_def type_match_def js_match_def Let_def
      uploadVideo'_def uploadAudio'_def uploadPdf'_def fmUploadVideo_def
      fmUploadAudio_def fmUploadPdf_def fm_and_def)

lemma claims_paper:
  "pasteHandler en DEFAULT_SETTINGS (Some ''note.md'')
     (Some [''localUpload'' \<mapsto> JBool True, ''uploadPdf'' \<mapsto> JBool True])
     (paste_of ''paper.pdf'' ''application/pdf'') e
   = claimed en DEFAULT_SETTINGS
       (Some [''localUpload'' \<mapsto> JBool True, ''uploadPdf'' \<mapsto> JBool True]) ''pdf''
       \<lparr>f_name = ''paper.pdf'', f_type = ''application/pdf'', f_arrayBuffer = Inr []\<rparr> e"
  by (simp add: pasteHandler_def paste_of_def DEFAULT_SETTINGS_def
      event_file_def files0_def thisType_def type_match_def js_match_def Let_def
      uploadVideo'_def uploadAudio'_def uploadPdf'_def fmUploadVideo_def
      fmUploadAudio_def fmUploadPdf_def fm_and_def)

lemma insert_paper:
  "replaceSelection empty_editor (pastePlaceText ''d41d8cd98f00b204e9800998ecf8427e.pdf'')
   = \<lparr>doc = ''![uploading...](d41d8cd98f00b204e9800998ecf8427e.pdf)'' @ [CHR 0x0A],
      sel_anchor = 54, sel_head = 54\<rparr>"
  by (simp add: replaceSelection_def pastePlaceText_def empty_editor_def)

lemma local_then_pdf_with_base_path:
  assumes "getBasePath en = Some b" and "b \<noteq> []"
  shows "local_then en dir path ''pdf'' ppt e =
           (replaceText e ppt [],
            [ReplaceText ppt [],
             ConsoleLog ''PDFs cannot be embedded in local mode'',
             Notice (''Error uploading image to '' @ dir
                     @ '' folder: PDFs cannot be embedded in local mode'')])"
  using assms by (simp add: local_then_def wrapFileDependingOnType_def local_catch_def)

lemma remote_upload_constructor_throws:
  assumes "new_S3Client en
             \<lparr>cfg_region = region s, cfg_accessKeyId = accessKey s,
              cfg_secretAccessKey = secretKey s, cfg_endpoint = endpoint s,
              cfg_forcePathStyle = forcePathStyle s\<rparr> = Some err"
  shows "remote_upload en s fm ty f buf name e =
           (e, [NewS3Client \<lparr>cfg_region = region s, cfg_accessKeyId = accessKey s,
                              cfg_secretAccessKey = secretKey s, cfg_endpoint = endpoint s,
                              cfg_forcePathStyle = forcePathStyle s\<rparr>], Some err)"
  using assms by (simp add: remote_upload_def Let_def)

section \<open>Effective configuration\<close>

text \<open>
  C4, as the code has it. Each of \<open>localUpload\<close>, \<open>uploadVideo\<close>, \<open>uploadAudio\<close>
  and \<open>uploadPdf\<close>, and the folder (frontmatter key \<open>localUploadFolder\<close>), takes
  the frontmatter value when the key is present with a truthy value; when the key is
  absent, when its value is falsy (\<open>false\<close>, \<open>null\<close>, the empty string), and when
  the note has no frontmatter, it takes the global setting.
\<close>

theorem frontmatter_precedence:
  "localUpload' (Some m) s =
     (case m ''localUpload'' of
        None \<Rightarrow> JBool (localUpload s)
      | Some v \<Rightarrow> if truthy v then v else JBool (localUpload s)) \<and>
   uploadVideo' (Some m) s =
     (case m ''uploadVideo'' of
        None \<Rightarrow> JBool (uploadVideo s)
      | Some v \<Rightarrow> if truthy v then v else JBool (uploadVideo s)) \<and>
   uploadAudio' (Some m) s =
     (case m ''uploadAudio'' of
        None \<Rightarrow> JBool (uploadAudio s)
      | Some v \<Rightarrow> if truthy v then v else JBool (uploadAudio s)) \<and>
   uploadPdf' (Some m) s =
     (case m ''uploadPdf'' of
        None \<Rightarrow> JBool (uploadPdf s)
      | Some v \<Rightarrow> if truthy v then v else JBool (uploadPdf s)) \<and>
   folder' (Some m) s =
     (case m ''localUploadFolder'' of
        None \<Rightarrow> JStr (folder s)
      | Some v \<Rightarrow> if truthy v then v else JStr (folder s)) \<and>
   localUpload' None s = JBool (localUpload s) \<and>
   uploadVideo' None s = JBool (uploadVideo s) \<and>
   uploadAudio' None s = JBool (uploadAudio s) \<and>
   uploadPdf' None s = JBool (uploadPdf s) \<and>
   folder' None s = JStr (folder s)"
  by (simp add: localUpload'_def uploadVideo'_def uploadAudio'_def uploadPdf'_def folder'_def
      fmLocalUpload_def fmUploadVideo_def fmUploadAudio_def fmUploadPdf_def fmUploadFolder_def
      fm_and_def split: option.split)

text \<open>A frontmatter \<open>uploadVideo: true\<close> over the default \<open>false\<close>, and an absent key.\<close>

theorem frontmatter_precedence_witness:
  "uploadVideo' (Some [''uploadVideo'' \<mapsto> JBool True]) DEFAULT_SETTINGS = JBool True \<and>
   uploadPdf' (Some [''uploadVideo'' \<mapsto> JBool True]) DEFAULT_SETTINGS = JBool False"
  using frontmatter_precedence[of "[''uploadVideo'' \<mapsto> JBool True]" DEFAULT_SETTINGS]
  by (simp add: DEFAULT_SETTINGS_def)

text \<open>
  C4 as the specification states it fails: with \<open>localUpload: false\<close> in the
  frontmatter and \<open>localUpload\<close> on in the settings, the upload is local.
\<close>

theorem frontmatter_false_counterexample:
  "localUpload' (Some [''localUpload'' \<mapsto> JBool False])
     (DEFAULT_SETTINGS\<lparr>localUpload := True\<rparr>)
   = JBool True"
  by (simp add: localUpload'_def fmLocalUpload_def fm_and_def DEFAULT_SETTINGS_def)




section \<open>Event intake\<close>

text \<open>
  C8. For the file of an event, \<open>thisType\<close> is the first kind in the order video,
  audio, pdf, image whose pattern the MIME type matches and which is enabled, image
  needing no flag; and when there is no such kind, the handler declines: it does
  nothing, and the editor is as it was.
\<close>

theorem media_kind_classification:
  "thisType (Some f) uv ua up =
     (case first_enabled_kind f uv ua up of None \<Rightarrow> [] | Some k \<Rightarrow> k) \<and>
   (event_file ev = Some f \<and>
    first_enabled_kind f (uploadVideo' fm s) (uploadAudio' fm s) (uploadPdf' fm s) = None
    \<longrightarrow> pasteHandler en s noteFile fm ev e = declined e)"
proof
  show "thisType (Some f) uv ua up =
     (case first_enabled_kind f uv ua up of None \<Rightarrow> [] | Some k \<Rightarrow> k)"
    by (simp add: thisType_def first_enabled_kind_def type_match_def kind_pattern_def
        kind_enabled_def)
next
  have t: "first_enabled_kind f uv ua up = None \<Longrightarrow> thisType (Some f) uv ua up = []"
    for uv ua up
    by (auto simp: thisType_def first_enabled_kind_def type_match_def kind_pattern_def
        kind_enabled_def split: if_splits)
  show "event_file ev = Some f \<and>
    first_enabled_kind f (uploadVideo' fm s) (uploadAudio' fm s) (uploadPdf' fm s) = None
    \<longrightarrow> pasteHandler en s noteFile fm ev e = declined e"
    using t by (simp add: pasteHandler_def Let_def)
qed

text \<open>
  A video is a video when videos are enabled; with the default settings, where they
  are not, pasting it is declined.
\<close>

theorem media_kind_classification_witness:
  "thisType (Some \<lparr>f_name = ''clip.mp4'', f_type = ''video/mp4'', f_arrayBuffer = Inr []\<rparr>)
     (JBool True) (JBool False) (JBool False) = ''video'' \<and>
   pasteHandler quiet_env DEFAULT_SETTINGS (Some ''note.md'') None
     (paste_of ''clip.mp4'' ''video/mp4'') empty_editor
   = declined empty_editor"
  using media_kind_classification[of
      "\<lparr>f_name = ''clip.mp4'', f_type = ''video/mp4'', f_arrayBuffer = Inr []\<rparr>"
      "JBool True" "JBool False" "JBool False" "paste_of ''clip.mp4'' ''video/mp4''"
      None DEFAULT_SETTINGS quiet_env "Some ''note.md''" empty_editor]
  by (simp add: first_enabled_kind_def kind_pattern_def kind_enabled_def js_match_def
      event_file_def files0_def paste_of_def DEFAULT_SETTINGS_def
      uploadVideo'_def uploadAudio'_def uploadPdf'_def fmUploadVideo_def
      fmUploadAudio_def fmUploadPdf_def fm_and_def)

section \<open>Order of the handler's steps\<close>

lemma s3_catch_no_insert: "ReplaceSelection p \<notin> set (s3_catch s err)"
  by (cases err) (simp add: s3_catch_def)

lemma local_catch_no_insert: "ReplaceSelection p \<notin> set (local_catch dir err)"
  by (cases err) (simp add: local_catch_def)

lemma remote_upload_acts:
  "fst (snd (remote_upload en s fm ty f buf name e)) \<noteq> [] \<and>
   ReplaceSelection p \<notin> set (fst (snd (remote_upload en s fm ty f buf name e)))"
  by (simp add: remote_upload_def s3_then_def Let_def s3_catch_no_insert
      split: option.split sum.split prod.split)

lemma local_upload_acts:
  "fst (snd (local_upload en s fm ty buf name e)) \<noteq> [] \<and>
   ReplaceSelection p \<notin> set (fst (snd (local_upload en s fm ty buf name e)))"
  by (simp add: local_upload_def local_then_def Let_def local_catch_no_insert
      split: option.split sum.split prod.split)

lemma claimed_read:
  assumes "f_arrayBuffer f = Inr buf"
  shows "\<exists>acts. trace (claimed en s fm ty f e) =
           [PreventDefault, ArrayBuffer,
            ReplaceSelection (pastePlaceText (newFileName (md5_hex en buf) (f_name f)))] @ acts
         \<and> acts \<noteq> [] \<and> (\<forall>p. ReplaceSelection p \<notin> set acts)
         \<and> inserted (claimed en s fm ty f e) =
             Some (replaceSelection (edit_while_reading en e)
                     (pastePlaceText (newFileName (md5_hex en buf) (f_name f))))"
proof (cases "truthy (localUpload' fm s)")
  case True
  define r where "r = local_upload en s fm ty buf (newFileName (md5_hex en buf) (f_name f))
      (replaceSelection (edit_while_reading en e)
         (pastePlaceText (newFileName (md5_hex en buf) (f_name f))))"
  have "trace (claimed en s fm ty f e) =
           [PreventDefault, ArrayBuffer,
            ReplaceSelection (pastePlaceText (newFileName (md5_hex en buf) (f_name f)))]
           @ fst (snd r)"
    and "inserted (claimed en s fm ty f e) =
             Some (replaceSelection (edit_while_reading en e)
                     (pastePlaceText (newFileName (md5_hex en buf) (f_name f))))"
    using assms True by (simp_all add: claimed_def Let_def r_def split: prod.split)
  then show ?thesis using local_upload_acts unfolding r_def by blast
next
  case False
  define r where "r = remote_upload en s fm ty f buf (newFileName (md5_hex en buf) (f_name f))
      (replaceSelection (edit_while_reading en e)
         (pastePlaceText (newFileName (md5_hex en buf) (f_name f))))"
  have "trace (claimed en s fm ty f e) =
           [PreventDefault, ArrayBuffer,
            ReplaceSelection (pastePlaceText (newFileName (md5_hex en buf) (f_name f)))]
           @ fst (snd r)"
    and "inserted (claimed en s fm ty f e) =
             Some (replaceSelection (edit_while_reading en e)
                     (pastePlaceText (newFileName (md5_hex en buf) (f_name f))))"
    using assms False by (simp_all add: claimed_def Let_def r_def split: prod.split)
  then show ?thesis using remote_upload_acts unfolding r_def by blast
qed

lemma claimed_read_failed:
  "f_arrayBuffer f = Inl err \<Longrightarrow>
   claimed en s fm ty f e =
     \<lparr>final = edit_while_reading en e, inserted = None,
      trace = [PreventDefault, ArrayBuffer], rejected = Some err\<rparr>"
  by (simp add: claimed_def)

lemma replaceSelection_sublist: "sublist p (doc (replaceSelection e p))"
  by (simp add: replaceSelection_def Let_def)

lemma pasteHandler_cases:
  assumes "event_file ev = Some f"
  shows "pasteHandler en s noteFile fm ev e = declined e \<or>
         (\<exists>ty. pasteHandler en s noteFile fm ev e = claimed en s fm ty f e)"
  using assms by (auto simp: pasteHandler_def Let_def)

text \<open>
  C2, as the code has it. For every claimed event, that is, whenever the handler does
  anything, it first suppresses the default handling, synchronously, and then awaits
  the bytes of the file. When the bytes have arrived it inserts the placeholder text
  and a line feed, once, into the editor as the user has left it meanwhile: the
  document then contains that text. Only then does it start the upload, whose every
  step, the construction of the client, the send, the \<open>mkdir\<close> and the write, comes
  behind the insertion. When reading the bytes fails, nothing is inserted and the
  handler leaves the document alone.
\<close>

theorem placeholder_inserted_after_read:
  assumes "event_file ev = Some f"
      and "trace (pasteHandler en s noteFile fm ev e) \<noteq> []"
  shows "case f_arrayBuffer f of
           Inl err \<Rightarrow>
             trace (pasteHandler en s noteFile fm ev e) = [PreventDefault, ArrayBuffer] \<and>
             inserted (pasteHandler en s noteFile fm ev e) = None \<and>
             final (pasteHandler en s noteFile fm ev e) = edit_while_reading en e
         | Inr buf \<Rightarrow>
             take 3 (trace (pasteHandler en s noteFile fm ev e)) =
               [PreventDefault, ArrayBuffer,
                ReplaceSelection (pastePlaceText (newFileName (md5_hex en buf) (f_name f)))] \<and>
             3 < length (trace (pasteHandler en s noteFile fm ev e)) \<and>
             (\<forall>p. ReplaceSelection p \<notin> set (drop 3 (trace (pasteHandler en s noteFile fm ev e)))) \<and>
             inserted (pasteHandler en s noteFile fm ev e) =
               Some (replaceSelection (edit_while_reading en e)
                       (pastePlaceText (newFileName (md5_hex en buf) (f_name f)))) \<and>
             sublist (pastePlaceText (newFileName (md5_hex en buf) (f_name f)))
               (doc (replaceSelection (edit_while_reading en e)
                       (pastePlaceText (newFileName (md5_hex en buf) (f_name f)))))"
proof -
  have "pasteHandler en s noteFile fm ev e \<noteq> declined e"
    using assms(2) by (auto simp: declined_def)
  with pasteHandler_cases[OF assms(1), of en s noteFile fm e] obtain ty where
    c: "pasteHandler en s noteFile fm ev e = claimed en s fm ty f e"
    by blast
  show ?thesis
  proof (cases "f_arrayBuffer f")
    case (Inl err)
    then show ?thesis unfolding c by (simp add: claimed_read_failed)
  next
    case (Inr buf)
    from claimed_read[OF Inr, of en s fm ty e] obtain acts where
      a: "trace (claimed en s fm ty f e) =
           [PreventDefault, ArrayBuffer,
            ReplaceSelection (pastePlaceText (newFileName (md5_hex en buf) (f_name f)))] @ acts"
         "acts \<noteq> []" "\<forall>p. ReplaceSelection p \<notin> set acts"
         "inserted (claimed en s fm ty f e) =
             Some (replaceSelection (edit_while_reading en e)
                     (pastePlaceText (newFileName (md5_hex en buf) (f_name f))))"
      by blast
    show ?thesis unfolding c using Inr a by (simp add: replaceSelection_sublist)
  qed
qed

theorem placeholder_inserted_after_read_witness:
  "take 3 (trace (pasteHandler quiet_env notes_settings (Some ''note.md'') None
             (paste_of ''photo.png'' ''image/png'') empty_editor)) =
     [PreventDefault, ArrayBuffer,
      ReplaceSelection (pastePlaceText ''d41d8cd98f00b204e9800998ecf8427e.png'')] \<and>
   inserted (pasteHandler quiet_env notes_settings (Some ''note.md'') None
             (paste_of ''photo.png'' ''image/png'') empty_editor) =
     Some (replaceSelection empty_editor (pastePlaceText ''d41d8cd98f00b204e9800998ecf8427e.png'')) \<and>
   sublist (pastePlaceText ''d41d8cd98f00b204e9800998ecf8427e.png'')
     (doc (replaceSelection empty_editor (pastePlaceText ''d41d8cd98f00b204e9800998ecf8427e.png'')))"
proof -
  let ?f = "\<lparr>f_name = ''photo.png'', f_type = ''image/png'', f_arrayBuffer = Inr []\<rparr>"
  have h1: "event_file (paste_of ''photo.png'' ''image/png'') = Some ?f"
    by (simp add: event_file_def files0_def paste_of_def)
  have h2: "trace (pasteHandler quiet_env notes_settings (Some ''note.md'') None
             (paste_of ''photo.png'' ''image/png'') empty_editor) \<noteq> []"
    unfolding run_photo by simp
  from placeholder_inserted_after_read[OF h1 h2]
  show ?thesis by (simp add: quiet_env_def newFileName_photo)
qed

text \<open>
  C2 as the specification states it fails: up to its first suspension the handler has
  suppressed the default handling and done nothing else; the placeholder is inserted
  behind \<open>await file.arrayBuffer()\<close>, when the bytes of the file have been read. So
  when the user types \<open>x\<close> while the bytes are read, the placeholder lands behind
  the \<open>x\<close>, not where the cursor was at the paste.
\<close>

theorem placeholder_not_synchronous_counterexample:
  "sync_prefix (trace (pasteHandler quiet_env notes_settings (Some ''note.md'') None
                  (paste_of ''photo.png'' ''image/png'') empty_editor))
     = [PreventDefault] \<and>
   trace (pasteHandler quiet_env notes_settings (Some ''note.md'') None
            (paste_of ''photo.png'' ''image/png'') empty_editor)
     = [PreventDefault, ArrayBuffer,
        ReplaceSelection (pastePlaceText ''d41d8cd98f00b204e9800998ecf8427e.png''),
        NewS3Client \<lparr>cfg_region = ''us-east-1'', cfg_accessKeyId = [], cfg_secretAccessKey = [],
                       cfg_endpoint = [], cfg_forcePathStyle = False\<rparr>,
        ArrayBuffer,
        Send \<lparr>Bucket = ''notes'', Key = ''d41d8cd98f00b204e9800998ecf8427e.png'',
               Body = [], ContentType = Some ''image/png'', ACL = ''public-read''\<rparr>,
        ReplaceText (pastePlaceText ''d41d8cd98f00b204e9800998ecf8427e.png'')
          ''![image](https://cdn.example.com/d41d8cd98f00b204e9800998ecf8427e.png)'',
        Notice ''Image uploaded to S3 bucket: notes''] \<and>
   inserted (pasteHandler (quiet_env\<lparr>edit_while_reading := \<lambda>e. replaceSelection e ''x''\<rparr>)
               notes_settings (Some ''note.md'') None
               (paste_of ''photo.png'' ''image/png'') empty_editor)
     = Some \<lparr>doc = ''x![uploading...](d41d8cd98f00b204e9800998ecf8427e.png)'' @ [CHR 0x0A],
             sel_anchor = 55, sel_head = 55\<rparr>"
  (is "?sync \<and> ?trace \<and> ?typed")
proof (intro conjI)
  show ?sync unfolding run_photo by (simp add: sync_prefix_def is_async_def)
  show ?trace unfolding run_photo by simp
  show ?typed
    unfolding claims_photo
    by (simp add: claimed_def Let_def quiet_env_def newFileName_photo
        replaceSelection_def pastePlaceText_def empty_editor_def split: prod.split)
qed

section \<open>Failures\<close>

text \<open>
  C1 at a rejected \<open>client.send\<close> and at a rejected \<open>writeBinary\<close>: the failure
  notice with the message is shown, and \<open>replaceText\<close> is not called; the placeholder
  is still in the note when the handler is done.
\<close>

theorem upload_failure_keeps_placeholder:
  "pasteHandler (quiet_env\<lparr>send := \<lambda>command. Some (Error ''Access Denied'')\<rparr>)
     notes_settings (Some ''note.md'') None
     (paste_of ''photo.png'' ''image/png'') empty_editor
   = \<lparr>final =
        \<lparr>doc = ''![uploading...](d41d8cd98f00b204e9800998ecf8427e.png)'' @ [CHR 0x0A],
         sel_anchor = 54, sel_head = 54\<rparr>,
      inserted =
        Some \<lparr>doc = ''![uploading...](d41d8cd98f00b204e9800998ecf8427e.png)'' @ [CHR 0x0A],
                sel_anchor = 54, sel_head = 54\<rparr>,
      trace =
        [PreventDefault, ArrayBuffer,
         ReplaceSelection (pastePlaceText ''d41d8cd98f00b204e9800998ecf8427e.png''),
         NewS3Client \<lparr>cfg_region = ''us-east-1'', cfg_accessKeyId = [], cfg_secretAccessKey = [],
                       cfg_endpoint = [], cfg_forcePathStyle = False\<rparr>,
         ArrayBuffer,
         Send \<lparr>Bucket = ''notes'', Key = ''d41d8cd98f00b204e9800998ecf8427e.png'',
                Body = [], ContentType = Some ''image/png'', ACL = ''public-read''\<rparr>,
         ConsoleError ''Access Denied'',
         Notice ''Error uploading image to S3 bucket notes: Access Denied''],
      rejected = None\<rparr> \<and>
   pasteHandler (quiet_env\<lparr>writeBinary := \<lambda>path buf. Some (Error ''EACCES'')\<rparr>)
     notes_settings (Some ''note.md'') (Some [''localUpload'' \<mapsto> JBool True])
     (paste_of ''photo.png'' ''image/png'') empty_editor
   = \<lparr>final =
        \<lparr>doc = ''![uploading...](d41d8cd98f00b204e9800998ecf8427e.png)'' @ [CHR 0x0A],
         sel_anchor = 54, sel_head = 54\<rparr>,
      inserted =
        Some \<lparr>doc = ''![uploading...](d41d8cd98f00b204e9800998ecf8427e.png)'' @ [CHR 0x0A],
                sel_anchor = 54, sel_head = 54\<rparr>,
      trace =
        [PreventDefault, ArrayBuffer,
         ReplaceSelection (pastePlaceText ''d41d8cd98f00b204e9800998ecf8427e.png''),
         Mkdir [],
         WriteBinary ''d41d8cd98f00b204e9800998ecf8427e.png'' [],
         ConsoleLog ''EACCES'',
         Notice ''Error uploading image to  folder: EACCES''],
      rejected = None\<rparr>"
  (is "?remote \<and> ?local")
proof (rule conjI)
  show ?remote
    unfolding claims_photo
    apply (simp add: claimed_def Let_def quiet_env_def newFileName_photo insert_photo
        localUpload'_def fmLocalUpload_def fm_and_def notes_settings_def DEFAULT_SETTINGS_def)
    apply (simp add: remote_upload_def Let_def key_def folder'_def fmUploadFolder_def)
    apply (simp add: s3_catch_def)
    done
next
  show ?local
    unfolding claims_photo_local
    apply (simp add: claimed_def Let_def quiet_env_def newFileName_photo insert_photo
        localUpload'_def fmLocalUpload_def fm_and_def)
    apply (simp add: local_upload_def Let_def localUploadPath_def localUploadFolder'_def
        fmUploadFolder_def notes_settings_def DEFAULT_SETTINGS_def)
    apply (simp add: local_catch_def)
    done
qed

text \<open>
  C6 at a PDF pasted in local mode where the adapter is no \<open>FileSystemAdapter\<close>, so
  that the base path is empty: the markup is generated, the placeholder is replaced by
  the viewer frame around the local path, and the notice reports success.
\<close>

theorem pdf_local_without_base_path:
  "pasteHandler quiet_env DEFAULT_SETTINGS (Some ''note.md'')
     (Some [''localUpload'' \<mapsto> JBool True, ''uploadPdf'' \<mapsto> JBool True])
     (paste_of ''paper.pdf'' ''application/pdf'') empty_editor
   = \<lparr>final =
        \<lparr>doc = ''<iframe frameborder=0 border=0 width=100% height=800''
                @ [CHR 0x0A, CHR 0x09] @ ''src='' @ [CHR 0x22]
                @ ''https://docs.google.com/viewer?url=d41d8cd98f00b204e9800998ecf8427e.pdf?raw=true''
                @ [CHR 0x22] @ ''>'' @ [CHR 0x0A] @ ''</iframe>'' @ [CHR 0x0A],
         sel_anchor = 0, sel_head = 0\<rparr>,
      inserted =
        Some \<lparr>doc = ''![uploading...](d41d8cd98f00b204e9800998ecf8427e.pdf)'' @ [CHR 0x0A],
                sel_anchor = 54, sel_head = 54\<rparr>,
      trace =
        [PreventDefault, ArrayBuffer,
         ReplaceSelection (pastePlaceText ''d41d8cd98f00b204e9800998ecf8427e.pdf''),
         Mkdir [],
         WriteBinary ''d41d8cd98f00b204e9800998ecf8427e.pdf'' [],
         ReplaceText (pastePlaceText ''d41d8cd98f00b204e9800998ecf8427e.pdf'')
           (''<iframe frameborder=0 border=0 width=100% height=800''
            @ [CHR 0x0A, CHR 0x09] @ ''src='' @ [CHR 0x22]
            @ ''https://docs.google.com/viewer?url=d41d8cd98f00b204e9800998ecf8427e.pdf?raw=true''
            @ [CHR 0x22] @ ''>'' @ [CHR 0x0A] @ ''</iframe>''),
         Notice ''Image uploaded to  folder''],
      rejected = None\<rparr>"
  unfolding claims_paper
  apply (simp add: claimed_def Let_def quiet_env_def newFileName_paper insert_paper
      localUpload'_def fmLocalUpload_def fm_and_def)
  apply (simp add: local_upload_def Let_def localUploadPath_def localUploadFolder'_def
      fmUploadFolder_def DEFAULT_SETTINGS_def)
  apply (simp add: local_then_def wrapFileDependingOnType_def)
  apply (insert reconcile_first[of "''d41d8cd98f00b204e9800998ecf8427e.pdf''" "[CHR 0x0A]" 54 54
      "''<iframe frameborder=0 border=0 width=100% height=800''
            @ [CHR 0x0A, CHR 0x09] @ ''src='' @ [CHR 0x22]
            @ ''https://docs.google.com/viewer?url=d41d8cd98f00b204e9800998ecf8427e.pdf?raw=true''
            @ [CHR 0x22] @ ''>'' @ [CHR 0x0A] @ ''</iframe>''"])
  apply simp
  done

end
